theory Spec2Isabelle
  imports Complex_Main "HOL-Library.Word" "HOL-Library.Sublist"
begin

unbundle bit_operations_syntax

section \<open>Bytes and errors (pykmp/codec.py, pykmp/messages.py)\<close>

text \<open>
  A Python \<^verbatim>\<open>bytes\<close> value is a list of 8-bit words. Python's unbounded integers are
  \<^typ>\<open>int\<close> (or \<^typ>\<open>nat\<close> where the source only ever holds a non-negative value).
  Every exception class of the source is a constructor of \<open>codec_error\<close>; the fields are
  those of the attrs classes. \<open>OverflowError\<close> is Python's own exception, raised by
  \<^verbatim>\<open>int.to_bytes\<close> where the source does not catch it.
\<close>

type_synonym byte = "8 word"
type_synonym bytes = "byte list"

datatype boundary = Start | Stop

datatype codec_error =
    AckReceivedException
  | OutOfRangeError string "int option \<times> int option" int
  | DataLengthUnexpectedError string nat "nat option" bool
  | BoundaryByteInvalidError boundary byte byte
  | InvalidDestinationAddressError
  | UnsupportedDecimalExponentError
  | CrcChecksumInvalidError
  | MessageCidMismatchError nat nat
  | SerialNumberInvalidError string
  | OverflowError
  | DecimalOverflow
  | DecimalInvalidOperation

subsection \<open>constants.ByteCode\<close>

definition START_FROM_METER :: byte where "START_FROM_METER = 0x40"
definition START_TO_METER :: byte where "START_TO_METER = 0x80"
definition STOP :: byte where "STOP = 0x0D"
definition ACK :: byte where "ACK = 0x06"
definition STUFFING :: byte where "STUFFING = 0x1B"

definition ACK_BYTES :: bytes where "ACK_BYTES = [ACK]"

subsection \<open>Python's \<^verbatim>\<open>int.to_bytes(length, "big")\<close> and \<^verbatim>\<open>int.from_bytes(bytes, "big")\<close>\<close>

text \<open>
  \<^verbatim>\<open>n.to_bytes(length, "big")\<close> raises OverflowError for a negative \<open>n\<close> and for one
  that does not fit in \<open>length\<close> bytes.
\<close>

definition int_to_bytes :: "int \<Rightarrow> nat \<Rightarrow> codec_error + bytes" where
  "int_to_bytes n len =
     (if n < 0 \<or> 256 ^ len \<le> n then Inl OverflowError
      else Inr (map (\<lambda>i. word_of_int (n div 256 ^ i)) (rev [0..<len])))"

definition int_from_bytes :: "bytes \<Rightarrow> int" where
  "int_from_bytes bs = foldl (\<lambda>acc b. acc * 256 + uint b) 0 bs"

section \<open>PhysicalCodec\<close>

datatype PhysicalDirection = TO_METER | FROM_METER

text \<open>
  \<^verbatim>\<open>BYTE_STUFFING_MAP\<close> is a dict; Python iterates it in insertion order, which is the
  order of the tuple in the comprehension: STUFFING first.
\<close>

definition BYTE_STUFFING_MAP :: "(bytes \<times> bytes) list" where
  "BYTE_STUFFING_MAP =
     map (\<lambda>the_byte. ([the_byte], [STUFFING, the_byte XOR 0xFF]))
       [STUFFING, ACK, START_FROM_METER, START_TO_METER, STOP]"

fun direction_to_start_byte :: "PhysicalDirection \<Rightarrow> byte" where
  "direction_to_start_byte FROM_METER = START_FROM_METER"
| "direction_to_start_byte TO_METER = START_TO_METER"

text \<open>
  Python's \<^verbatim>\<open>bytes.replace(old, new)\<close>: one pass from the left, replacing every
  non-overlapping occurrence of \<open>old\<close>; the text just written is not scanned again.
  With an empty \<open>old\<close> Python puts \<open>new\<close> before every byte and at the end.
\<close>

function replace_from :: "bytes \<Rightarrow> bytes \<Rightarrow> bytes \<Rightarrow> bytes" where
  "replace_from old new [] = []"
| "replace_from old new (x # xs) =
     (if old \<noteq> [] \<and> prefix old (x # xs)
      then new @ replace_from old new (drop (length old) (x # xs))
      else x # replace_from old new xs)"
  by pat_completeness auto
termination
  by (relation "measure (\<lambda>(old, new, xs). length xs)") auto

definition replace_bytes :: "bytes \<Rightarrow> bytes \<Rightarrow> bytes \<Rightarrow> bytes" where
  "replace_bytes old new xs =
     (if old = [] then new @ concat (map (\<lambda>x. x # new) xs)
      else replace_from old new xs)"

definition PhysicalCodec_decode :: "PhysicalDirection \<Rightarrow> bytes \<Rightarrow> codec_error + bytes" where
  "PhysicalCodec_decode direction frame =
     (if frame = [] then Inl (DataLengthUnexpectedError ''Frame'' 0 None False)
      else if frame = ACK_BYTES then Inl AckReceivedException
      else if hd frame \<noteq> direction_to_start_byte direction
        then Inl (BoundaryByteInvalidError Start (direction_to_start_byte direction) (hd frame))
      else if last frame \<noteq> STOP
        then Inl (BoundaryByteInvalidError Stop STOP (last frame))
      else Inr (fold (\<lambda>(unescaped_byte, escaped_bytes) data_bytes.
                  replace_bytes escaped_bytes unescaped_byte data_bytes)
                BYTE_STUFFING_MAP (butlast (tl frame))))"

definition PhysicalCodec_encode :: "PhysicalDirection \<Rightarrow> bytes \<Rightarrow> codec_error + bytes" where
  "PhysicalCodec_encode direction data_bytes =
     (if length data_bytes = 0
      then Inl (DataLengthUnexpectedError ''Data link bytes'' 0 None False)
      else Inr ([direction_to_start_byte direction]
                @ fold (\<lambda>(unescaped_byte, escaped_bytes) raw.
                    replace_bytes unescaped_byte escaped_bytes raw)
                  BYTE_STUFFING_MAP data_bytes
                @ [STOP]))"

definition encode_ack :: bytes where
  "encode_ack = ACK_BYTES"

section \<open>The CRC calculator\<close>

text \<open>
  \<^verbatim>\<open>_create_kamstrup_crc16_ccitt_calculator\<close> configures a calculator of the third-party
  \<^verbatim>\<open>crc\<close> package: width 16, polynomial 0x1021, no reflection of input or output, final
  XOR 0, initial value 0 by default. The register of that package, for width 16: a byte
  is XORed into the top eight bits, then eight times the register is shifted left and,
  when the bit shifted out was set, XORed with the polynomial. \<open>checksum\<close> is the register
  after all bytes, reflected on request, XORed with the final value; \<open>verify\<close> compares
  it with the expected value. The table-driven register (\<^verbatim>\<open>optimized=True\<close>) computes the
  same function.
\<close>

record crc_configuration =
  polynomial :: "16 word"
  init_value :: "16 word"
  final_xor_value :: "16 word"
  reverse_input :: bool
  reverse_output :: bool

definition crc_shift :: "16 word \<Rightarrow> 16 word \<Rightarrow> 16 word" where
  "crc_shift poly register =
     (if register AND 0x8000 \<noteq> 0 then push_bit 1 register XOR poly else push_bit 1 register)"

definition crc_process_byte :: "crc_configuration \<Rightarrow> 16 word \<Rightarrow> byte \<Rightarrow> 16 word" where
  "crc_process_byte cfg register b =
     ((crc_shift (polynomial cfg)) ^^ 8)
       (register XOR push_bit 8 (ucast (if reverse_input cfg then word_reverse b else b)))"

definition crc_checksum :: "crc_configuration \<Rightarrow> bytes \<Rightarrow> int" where
  "crc_checksum cfg data =
     (let r = foldl (crc_process_byte cfg) (init_value cfg) data;
          r' = (if reverse_output cfg then word_reverse r else r)
      in uint (r' XOR final_xor_value cfg))"

definition crc_verify :: "crc_configuration \<Rightarrow> bytes \<Rightarrow> int \<Rightarrow> bool" where
  "crc_verify cfg data expected = (crc_checksum cfg data = expected)"

definition create_kamstrup_crc16_ccitt_calculator :: "16 word \<Rightarrow> crc_configuration" where
  "create_kamstrup_crc16_ccitt_calculator initial =
     \<lparr>polynomial = 0x1021, init_value = initial, final_xor_value = 0x0000,
      reverse_input = False, reverse_output = False\<rparr>"

definition crc_calculator :: crc_configuration where
  "crc_calculator = create_kamstrup_crc16_ccitt_calculator 0x0000"

section \<open>DataLinkCodec\<close>

text \<open>
  \<^verbatim>\<open>raw[0]\<close>, \<^verbatim>\<open>raw[1:-2]\<close> and \<^verbatim>\<open>raw[-2:]\<close> are read after the length check, so the
  indices are in range. The log record written by \<^verbatim>\<open>decode\<close> does not change its result
  and is not part of the model.
\<close>

record DataLinkData =
  destination_address :: int
  application_bytes :: bytes
  crc_value :: "int option"

definition DATA_LINK_BYTES_LENGTH_MIN :: nat where "DATA_LINK_BYTES_LENGTH_MIN = 4"
definition APPLICATION_BYTES_LENGTH_MIN :: nat where "APPLICATION_BYTES_LENGTH_MIN = 1"

definition DataLinkCodec_decode :: "bytes \<Rightarrow> codec_error + DataLinkData" where
  "DataLinkCodec_decode raw =
     (if \<not> length raw \<ge> DATA_LINK_BYTES_LENGTH_MIN
      then Inl (DataLengthUnexpectedError ''Data link layer message to destructure''
                  (length raw) (Some DATA_LINK_BYTES_LENGTH_MIN) True)
      else
        let destination_address = uint (raw ! 0);
            application_bytes = drop 1 (take (length raw - 2) raw);
            crc_bytes = drop (length raw - 2) raw;
            crc_verifies = crc_verify crc_calculator raw 0
        in if \<not> crc_verifies then Inl CrcChecksumInvalidError
           else Inr \<lparr>destination_address = destination_address,
                     application_bytes = application_bytes,
                     crc_value = Some (int_from_bytes crc_bytes)\<rparr>)"

definition DataLinkCodec_encode :: "DataLinkData \<Rightarrow> codec_error + bytes" where
  "DataLinkCodec_encode data =
     (case int_to_bytes (destination_address data) 1 of
        Inl _ \<Rightarrow> Inl InvalidDestinationAddressError
      | Inr destination_address_raw \<Rightarrow>
          if length (application_bytes data) < APPLICATION_BYTES_LENGTH_MIN
          then Inl (DataLengthUnexpectedError ''Application data''
                      (length (application_bytes data)) (Some APPLICATION_BYTES_LENGTH_MIN) True)
          else
            let raw_before_crc = destination_address_raw @ application_bytes data;
                crc = crc_checksum crc_calculator raw_before_crc
            in case int_to_bytes crc 2 of
                 Inl e \<Rightarrow> Inl e
               | Inr crc_bytes \<Rightarrow> Inr (raw_before_crc @ crc_bytes))"

section \<open>Evaluation lemmas\<close>

lemma BYTE_STUFFING_MAP_eval:
  "BYTE_STUFFING_MAP =
     [([0x1B], [0x1B, 0xE4]), ([0x06], [0x1B, 0xF9]), ([0x40], [0x1B, 0xBF]),
      ([0x80], [0x1B, 0x7F]), ([0x0D], [0x1B, 0xF2])]"
  by (simp add: BYTE_STUFFING_MAP_def STUFFING_def ACK_def START_FROM_METER_def
      START_TO_METER_def STOP_def)

lemma start_byte_eval:
  "direction_to_start_byte d = (case d of TO_METER \<Rightarrow> 0x80 | FROM_METER \<Rightarrow> 0x40)"
  by (cases d) (simp_all add: START_FROM_METER_def START_TO_METER_def)

section \<open>The CRC of a message followed by its own checksum\<close>

lemma topbit: "(x :: 16 word) AND 0x8000 \<noteq> 0 \<longleftrightarrow> bit x 15"
proof -
  have "(0x8000 :: 16 word) = 2 ^ 15" by simp
  then show ?thesis
    by (simp only: and_exp_eq_0_iff_not_bit) simp
qed

lemma shift_push: "k < 8 \<Longrightarrow> crc_shift p (push_bit k (ucast (b :: byte))) = push_bit (Suc k) (ucast b)"
proof -
  assume k: "k < 8"
  have "\<not> bit b (15 - k)"
  proof
    assume "bit b (15 - k)"
    then have "15 - k < LENGTH(8)" by (rule bit_imp_le_length)
    with k show False by simp
  qed
  then have "\<not> bit (push_bit k (ucast b :: 16 word)) 15"
    by (simp add: bit_simps)
  then show ?thesis
    unfolding crc_shift_def topbit by (simp add: push_bit_Suc mult.commute flip: push_bit_eq_mult) 
qed

lemma shift8: "(crc_shift p ^^ 8) (ucast (b :: byte)) = push_bit 8 (ucast b)"
proof -
  have "k \<le> 8 \<Longrightarrow> (crc_shift p ^^ k) (ucast b) = push_bit k (ucast b)" for k
    by (induction k) (simp_all add: shift_push)
  then show ?thesis by simp
qed

lemma hi_cancel: "(r :: 16 word) XOR push_bit 8 (ucast (ucast (drop_bit 8 r) :: byte)) = ucast (ucast r :: byte)"
  by (rule bit_eqI) (auto simp add: bit_simps)

lemma int_to_bytes_2: "int_to_bytes (uint (r :: 16 word)) 2 = Inr [ucast (drop_bit 8 r), ucast r]"
proof -
  have "uint r < 256 ^ 2" using uint_bounded [of r] by simp
  moreover have "(word_of_int (uint r div 256) :: byte) = ucast (drop_bit 8 r)"
  proof -
    have "uint (drop_bit 8 r) = uint r div 256"
      by (simp add: drop_bit_eq_div uint_div_distrib)
    then have "(word_of_int (uint r div 256) :: byte) = word_of_int (uint (drop_bit 8 r))"
      by simp
    then show ?thesis
      by (simp only: of_int_uint)
  qed
  moreover have "(word_of_int (uint r) :: byte) = ucast r"
    by simp
  ultimately show ?thesis
    by (simp add: int_to_bytes_def numeral_2_eq_2)
qed

lemma crc_self_check:
  "crc_process_byte crc_calculator
     (crc_process_byte crc_calculator r (ucast (drop_bit 8 r))) (ucast r) = 0"
  by (simp add: crc_process_byte_def crc_calculator_def create_kamstrup_crc16_ccitt_calculator_def
      hi_cancel shift8 shift8 [of _ 0, simplified])

lemma foldl_two: "foldl f a (xs @ [x, y]) = foldl f (foldl f a xs) [x, y]" by simp

lemma int_from_bytes_2:
  "int_from_bytes [ucast (drop_bit 8 r), ucast (r :: 16 word)] = uint r"
proof -
  have lo: "uint (ucast r :: byte) = uint r mod 256"
    by (simp add: unsigned_ucast_eq take_bit_eq_mod)
  have "uint (ucast (drop_bit 8 r) :: byte) = uint (drop_bit 8 r) mod 256"
    by (simp add: unsigned_ucast_eq take_bit_eq_mod)
  also have "uint (drop_bit 8 r) = uint r div 256"
    by (simp add: drop_bit_eq_div uint_div_distrib)
  also have "uint r div 256 mod 256 = uint r div 256"
  proof -
    have "uint r \<le> 65535" using uint_bounded [of r] by simp
    then have "uint r div 256 \<le> 65535 div 256" by (rule zdiv_mono1) simp
    then have "uint r div 256 < 256" by simp
    moreover have "0 \<le> uint r div 256" by (simp add: pos_imp_zdiv_nonneg_iff)
    ultimately show ?thesis by (simp add: mod_pos_pos_trivial)
  qed
  finally have hi: "uint (ucast (drop_bit 8 r) :: byte) = uint r div 256" .
  show ?thesis
    by (simp add: int_from_bytes_def lo hi)
qed

lemma crc_checksum_kamstrup:
  "crc_checksum crc_calculator data = uint (foldl (crc_process_byte crc_calculator) 0 data)"
  by (simp add: crc_checksum_def crc_calculator_def create_kamstrup_crc16_ccitt_calculator_def)

lemma int_to_bytes_1: "0 \<le> a \<Longrightarrow> a \<le> 255 \<Longrightarrow> int_to_bytes a (Suc 0) = Inr [word_of_int a]"
  by (simp add: int_to_bytes_def)

lemma uint_byte_of_int: "0 \<le> a \<Longrightarrow> a \<le> 255 \<Longrightarrow> uint (word_of_int a :: byte) = a"
  by (simp add: uint_word_of_int take_bit_int_eq_self)

lemma funpow_8: "(f ^^ 8) x = f (f (f (f (f (f (f (f x)))))))"
  by (simp add: numeral_eq_Suc)

lemma crc_process_byte_kamstrup:
  "crc_process_byte crc_calculator r b =
     crc_shift 0x1021 (crc_shift 0x1021 (crc_shift 0x1021 (crc_shift 0x1021
       (crc_shift 0x1021 (crc_shift 0x1021 (crc_shift 0x1021 (crc_shift 0x1021
         (r XOR push_bit 8 (ucast b)))))))))"
  by (simp add: crc_process_byte_def crc_calculator_def
      create_kamstrup_crc16_ccitt_calculator_def funpow_8)

lemma crc_fold_serial:
  "foldl (crc_process_byte crc_calculator) 0 [0x3F, 0x02, 0x01, 0x23, 0x45, 0x67] = 0xE956"
  by (simp add: crc_process_byte_kamstrup crc_shift_def)

section \<open>Claims\<close>

text \<open>
  C10. For either direction, decoding the two-byte frame made of the direction's start
  byte and the stop byte succeeds and returns the empty byte sequence, while encoding
  the empty byte sequence fails with the length error: decode produces a value that
  encode refuses.
\<close>

theorem C10_decode_empty_frame_encode_refuses:
  "PhysicalCodec_decode d [direction_to_start_byte d, STOP] = Inr []
   \<and> PhysicalCodec_encode d [] = Inl (DataLengthUnexpectedError ''Data link bytes'' 0 None False)"
  by (cases d)
    (simp_all add: PhysicalCodec_decode_def PhysicalCodec_encode_def BYTE_STUFFING_MAP_eval
      replace_bytes_def ACK_BYTES_def ACK_def STOP_def START_FROM_METER_def START_TO_METER_def)

text \<open>
  C3. For every DataLinkData with a destination address in [0,255] and non-empty
  application bytes, encode succeeds, decode of the encoded bytes succeeds (the checksum
  over all bytes verifies) and returns the original destination address and
  application bytes, with crc_value equal to the checksum that encode appended.
\<close>

theorem C3_roundtrip:
  assumes "0 \<le> destination_address d" and "destination_address d \<le> 255"
    and "application_bytes d \<noteq> []"
  shows "let raw_before_crc = word_of_int (destination_address d) # application_bytes d;
             crc = crc_checksum crc_calculator raw_before_crc
         in \<exists>crc_bytes. int_to_bytes crc 2 = Inr crc_bytes
              \<and> DataLinkCodec_encode d = Inr (raw_before_crc @ crc_bytes)
              \<and> DataLinkCodec_decode (raw_before_crc @ crc_bytes) =
                  Inr \<lparr>destination_address = destination_address d,
                        application_bytes = application_bytes d,
                        crc_value = Some crc\<rparr>"
proof -
  define rb where "rb = word_of_int (destination_address d) # application_bytes d"
  define r where "r = foldl (crc_process_byte crc_calculator) 0 rb"
  define cb :: bytes where "cb = [ucast (drop_bit 8 r), ucast r]"
  have crc: "crc_checksum crc_calculator rb = uint r"
    by (simp add: crc_checksum_kamstrup r_def)
  have tb: "int_to_bytes (crc_checksum crc_calculator rb) 2 = Inr cb"
    by (simp add: crc int_to_bytes_2 cb_def)
  have enc: "DataLinkCodec_encode d = Inr (rb @ cb)"
    using assms tb
    by (simp add: DataLinkCodec_encode_def int_to_bytes_1 APPLICATION_BYTES_LENGTH_MIN_def
        rb_def Let_def)
  have ver: "crc_verify crc_calculator (rb @ cb) 0"
    by (simp add: crc_verify_def crc_checksum_kamstrup cb_def crc_self_check flip: r_def)
  have len: "length (rb @ cb) - 2 = length rb" by (simp add: cb_def)
  have dec: "DataLinkCodec_decode (rb @ cb) =
      Inr \<lparr>destination_address = destination_address d,
            application_bytes = application_bytes d,
            crc_value = Some (uint r)\<rparr>"
    unfolding DataLinkCodec_decode_def Let_def len
    using assms ver
    by (cases "application_bytes d")
      (simp_all add: DATA_LINK_BYTES_LENGTH_MIN_def rb_def cb_def int_from_bytes_2 uint_byte_of_int)
  show ?thesis
    unfolding Let_def rb_def [symmetric]
    using tb enc dec crc by auto
qed

theorem C3_roundtrip_witness:
  "(0::int) \<le> 0x3F \<and> (0x3F::int) \<le> 255 \<and> [0x01 :: byte] \<noteq> []
   \<and> (\<exists>crc_bytes. int_to_bytes (crc_checksum crc_calculator [0x3F, 0x01]) 2 = Inr crc_bytes
        \<and> DataLinkCodec_encode \<lparr>destination_address = 0x3F, application_bytes = [0x01],
              crc_value = None\<rparr> = Inr ([0x3F, 0x01] @ crc_bytes)
        \<and> DataLinkCodec_decode ([0x3F, 0x01] @ crc_bytes) =
              Inr \<lparr>destination_address = 0x3F, application_bytes = [0x01],
                    crc_value = Some (crc_checksum crc_calculator [0x3F, 0x01])\<rparr>)"
  using C3_roundtrip [of "\<lparr>destination_address = 0x3F, application_bytes = [0x01],
      crc_value = None\<rparr>"]
  by (simp add: Let_def)

text \<open>
  C6. Decoding the data-link bytes 3F 02 01 23 45 67 E9 56 succeeds with destination
  address 0x3F, application bytes 02 01 23 45 67 and crc_value 0xE956; the checksum of
  3F 02 01 23 45 67 is 0xE956 and the checksum of all eight bytes is 0.
\<close>

theorem C6_kamstrup_serial_frame:
  "DataLinkCodec_decode [0x3F, 0x02, 0x01, 0x23, 0x45, 0x67, 0xE9, 0x56] =
     Inr \<lparr>destination_address = 0x3F, application_bytes = [0x02, 0x01, 0x23, 0x45, 0x67],
           crc_value = Some 0xE956\<rparr>
   \<and> crc_checksum crc_calculator [0x3F, 0x02, 0x01, 0x23, 0x45, 0x67] = 0xE956
   \<and> crc_checksum crc_calculator [0x3F, 0x02, 0x01, 0x23, 0x45, 0x67, 0xE9, 0x56] = 0"
proof -
  have six: "crc_checksum crc_calculator [0x3F, 0x02, 0x01, 0x23, 0x45, 0x67] = 0xE956"
    by (simp only: crc_checksum_kamstrup crc_fold_serial) simp
  have "foldl (crc_process_byte crc_calculator) 0 [0x3F, 0x02, 0x01, 0x23, 0x45, 0x67, 0xE9, 0x56]
      = foldl (crc_process_byte crc_calculator)
          (foldl (crc_process_byte crc_calculator) 0 [0x3F, 0x02, 0x01, 0x23, 0x45, 0x67])
          [0xE9, 0x56]"
    by simp
  also have "\<dots> = 0"
    by (simp add: crc_fold_serial crc_process_byte_kamstrup crc_shift_def)
  finally have eight:
    "crc_checksum crc_calculator [0x3F, 0x02, 0x01, 0x23, 0x45, 0x67, 0xE9, 0x56] = 0"
    by (simp only: crc_checksum_kamstrup) simp
  have "DataLinkCodec_decode [0x3F, 0x02, 0x01, 0x23, 0x45, 0x67, 0xE9, 0x56] =
     Inr \<lparr>destination_address = 0x3F, application_bytes = [0x02, 0x01, 0x23, 0x45, 0x67],
           crc_value = Some 0xE956\<rparr>"
    by (simp add: DataLinkCodec_decode_def DATA_LINK_BYTES_LENGTH_MIN_def crc_verify_def eight
        int_from_bytes_def)
  with six eight show ?thesis by simp
qed

text \<open>
  C1 at the input 1B F9: encode stuffs the escape byte and yields the frame
  start 1B E4 F9 0D; decode first rewrites 1B E4 to 1B and then reads the resulting
  pair 1B F9 as the escape sequence of 06, so it returns the single byte 06 and not
  the two bytes that were encoded.
\<close>

theorem C1_encode_then_decode_1B_F9:
  "PhysicalCodec_encode d [0x1B, 0xF9] = Inr [direction_to_start_byte d, 0x1B, 0xE4, 0xF9, 0x0D]
   \<and> PhysicalCodec_decode d [direction_to_start_byte d, 0x1B, 0xE4, 0xF9, 0x0D] = Inr [0x06]"
  by (cases d)
    (simp_all add: PhysicalCodec_decode_def PhysicalCodec_encode_def BYTE_STUFFING_MAP_eval
      replace_bytes_def ACK_BYTES_def ACK_def STOP_def START_FROM_METER_def START_TO_METER_def)

end
